theory Spec2Isabelle
  imports Main
begin

section \<open>JavaScript values\<close>

text \<open>
  The helpers branch on the dynamic type of their arguments (\<^verbatim>\<open>Array.isArray\<close>,
  \<^verbatim>\<open>typeof reqs === 'string'\<close>, truthiness), so arguments are values of a small
  universe: \<^verbatim>\<open>undefined\<close>, \<^verbatim>\<open>null\<close>, a string, or an array of strings
  (the JSDoc type \<^verbatim>\<open>{string|Array}\<close> of scopes and permissions).  A string is a list
  of code units below 256, which is what an HTTP header value holds.
\<close>

datatype jsval = Undefined | Null | Str string | Arr "string list"

text \<open>
  A value read from a property: either a value of the universe above, or one of the
  functions, objects and numbers that the standard library puts on every object and
  array (\<^verbatim>\<open>toString\<close>, \<^verbatim>\<open>constructor\<close>, \<^verbatim>\<open>__proto__\<close>, an array's
  \<^verbatim>\<open>length\<close>, ...).
\<close>

datatype propval = Val jsval | Builtin

text \<open>
  An object as the \<^verbatim>\<open>in\<close> operator and a property read see it: its own entries (for
  the events claim, the parsed JSON members), and the names of the properties it has
  besides those, through its prototype chain or as an array's \<^verbatim>\<open>length\<close>.
\<close>

record jsobject =
  entries :: "string \<rightharpoonup> jsval"
  builtins :: "string list"

text \<open>\<^verbatim>\<open>key in obj\<close>\<close>

definition hasProperty :: "jsobject \<Rightarrow> string \<Rightarrow> bool" where
  "hasProperty obj key = (entries obj key \<noteq> None \<or> key \<in> set (builtins obj))"

text \<open>\<^verbatim>\<open>obj[key]\<close>: an own entry shadows the prototype chain.\<close>

definition getProperty :: "jsobject \<Rightarrow> string \<Rightarrow> propval" where
  "getProperty obj key =
     (case entries obj key of
        Some v \<Rightarrow> Val v
      | None \<Rightarrow> if key \<in> set (builtins obj) then Builtin else Val Undefined)"

text \<open>
  A value on which \<^verbatim>\<open>in\<close> is applied: an object (a JSON object or array of the token,
  or the array literal \<^verbatim>\<open>[]\<close>), or something that is no object: \<^verbatim>\<open>undefined\<close> (what
  destructuring gives for a claim that the token lacks), \<^verbatim>\<open>null\<close>, or a primitive
  (a string, number or boolean).
\<close>

datatype objval = Object jsobject | UndefinedValue | NullValue | PrimitiveValue

text \<open>
  \<^verbatim>\<open>a === b\<close> for a property value \<open>a\<close> and an element \<open>b\<close> of a permission array.
  Such an element is never an array itself, and a built-in function, object or number
  is never \<^verbatim>\<open>undefined\<close>, \<^verbatim>\<open>null\<close> or a string.
\<close>

definition strictEquals :: "propval \<Rightarrow> jsval \<Rightarrow> bool" where
  "strictEquals a b =
     (case a of
        Builtin \<Rightarrow> False
      | Val Undefined \<Rightarrow> (case b of Undefined \<Rightarrow> True | _ \<Rightarrow> False)
      | Val Null \<Rightarrow> (case b of Null \<Rightarrow> True | _ \<Rightarrow> False)
      | Val (Str x) \<Rightarrow> (case b of Str y \<Rightarrow> x = y | _ \<Rightarrow> False)
      | Val (Arr xs) \<Rightarrow> False)"

text \<open>\<^verbatim>\<open>Array.isArray(x) ? x : [x]\<close>\<close>

fun toArray :: "jsval \<Rightarrow> jsval list" where
  "toArray (Arr xs) = map Str xs"
| "toArray v = [v]"

text \<open>
  \<^verbatim>\<open>scopes.includes(s)\<close> on an array of strings: SameValueZero equality, so only a
  string is ever found.
\<close>

definition includes_js :: "string list \<Rightarrow> jsval \<Rightarrow> bool" where
  "includes_js xs v = (case v of Str s \<Rightarrow> s \<in> set xs | _ \<Rightarrow> False)"

text \<open>\<^verbatim>\<open>xs.join(sep)\<close> on an array of strings.\<close>

fun join :: "string \<Rightarrow> string list \<Rightarrow> string" where
  "join sep [] = []"
| "join sep [x] = x"
| "join sep (x # y # ys) = x @ sep @ join sep (y # ys)"

text \<open>
  The white space of the regular expression class \<^verbatim>\<open>\s\<close> among the code units below 256:
  tab, line feed, vertical tab, form feed, carriage return, space, no-break space.
\<close>

definition isWhiteSpace :: "char \<Rightarrow> bool" where
  "isWhiteSpace c = (of_char c \<in> {9, 10, 11, 12, 13, 32, 160 :: nat})"

text \<open>
  \<^verbatim>\<open>s.split(/\s+/)\<close>: the fields between the maximal runs of white space.  The empty
  string gives one empty field; leading or trailing white space gives an empty first or
  last field.
\<close>

function split_ws :: "string \<Rightarrow> string list" where
  "split_ws s =
     (if dropWhile (\<lambda>c. \<not> isWhiteSpace c) s = []
      then [takeWhile (\<lambda>c. \<not> isWhiteSpace c) s]
      else takeWhile (\<lambda>c. \<not> isWhiteSpace c) s
             # split_ws (dropWhile isWhiteSpace (dropWhile (\<lambda>c. \<not> isWhiteSpace c) s)))"
  by pat_completeness auto

lemma dropWhile_run_shorter:
  assumes "dropWhile (\<lambda>c. \<not> P c) s \<noteq> []"
  shows "length (dropWhile P (dropWhile (\<lambda>c. \<not> P c) s)) < length s"
proof -
  obtain c cs where r: "dropWhile (\<lambda>c. \<not> P c) s = c # cs"
    using assms by (cases "dropWhile (\<lambda>c. \<not> P c) s") auto
  have "P c"
    using hd_dropWhile [of "\<lambda>c. \<not> P c" s] assms r by simp
  then have "length (dropWhile P (c # cs)) \<le> length cs"
    by (simp add: length_dropWhile_le)
  also have "length cs < length (dropWhile (\<lambda>c. \<not> P c) s)"
    by (simp add: r)
  also have "\<dots> \<le> length s"
    by (rule length_dropWhile_le)
  finally show ?thesis
    by (simp add: r)
qed

termination split_ws
  by (relation "measure length") (simp_all add: dropWhile_run_shorter)

declare split_ws.simps [simp del]

text \<open>\<^verbatim>\<open>s.toLowerCase()\<close> on code units below 256.\<close>

definition toLowerCaseChar :: "char \<Rightarrow> char" where
  "toLowerCaseChar c =
     (let n = (of_char c :: nat)
      in if (65 \<le> n \<and> n \<le> 90) \<or> (192 \<le> n \<and> n \<le> 222 \<and> n \<noteq> 215)
         then char_of (n + 32) else c)"

definition toLowerCase :: "string \<Rightarrow> string" where
  "toLowerCase s = map toLowerCaseChar s"

section \<open>The error classes\<close>

text \<open>
  Both classes extend \<^verbatim>\<open>Error\<close> and set nothing but the message, so an error value is
  its class and its message.  The third error is the \<^verbatim>\<open>TypeError\<close> of the engine, thrown
  by \<^verbatim>\<open>in\<close> on a value that is no object and by a method call on a value that lacks the
  method.
\<close>

datatype error = MissingScopeError string | MustLogInError string | TypeError

text \<open>
  \<^verbatim>\<open>makeRequirementMessage\<close> returns a string or \<^verbatim>\<open>null\<close> (\<open>None\<close>).
\<close>

definition makeRequirementMessage :: "jsval \<Rightarrow> string option" where
  "makeRequirementMessage reqs =
     (case reqs of
        Arr xs \<Rightarrow>
          if length xs > 1
          then Some (join '', '' (take (length xs - 1) xs) @ '', or '' @ xs ! (length xs - 1))
          else if length xs > 0 then Some (xs ! 0)
          else None
      | Str s \<Rightarrow> Some s
      | _ \<Rightarrow> None)"

text \<open>
  \<^verbatim>\<open>m ? `${m} suffix` : null\<close>: the empty string is falsy, as \<^verbatim>\<open>null\<close> is.
\<close>

definition requirementClause :: "string option \<Rightarrow> string \<Rightarrow> string option" where
  "requirementClause m suffix =
     (case m of Some s \<Rightarrow> if s \<noteq> [] then Some (s @ suffix) else None | None \<Rightarrow> None)"

text \<open>\<^verbatim>\<open>.filter((e) => e)\<close> on an array of strings and nulls.\<close>

fun filterTruthy :: "string option list \<Rightarrow> string list" where
  "filterTruthy [] = []"
| "filterTruthy (None # es) = filterTruthy es"
| "filterTruthy (Some s # es) = (if s \<noteq> [] then s # filterTruthy es else filterTruthy es)"

text \<open>The message computed by the constructor of \<^verbatim>\<open>MissingScopeError\<close>.\<close>

definition missingScopeMessage :: "jsval \<Rightarrow> jsval \<Rightarrow> string" where
  "missingScopeMessage requiresGlobal requiresEvent =
     (let requiresGlobalMessage = makeRequirementMessage requiresGlobal;
          requiresEventMessage = makeRequirementMessage requiresEvent;
          requiresMessage = join '', or '' (filterTruthy
            [requirementClause requiresGlobalMessage '' global scope'',
             requirementClause requiresEventMessage '' event scope''])
      in ''You don't have permission for that.''
           @ (if requiresMessage \<noteq> [] then ''(Requires '' @ requiresMessage @ '')'' else []))"

text \<open>\<^verbatim>\<open>new MissingScopeError(requiresGlobal, requiresEvent)\<close>\<close>

definition newMissingScopeError :: "jsval \<Rightarrow> jsval \<Rightarrow> error" where
  "newMissingScopeError requiresGlobal requiresEvent =
     MissingScopeError (missingScopeMessage requiresGlobal requiresEvent)"

text \<open>\<^verbatim>\<open>new MustLogInError()\<close>\<close>

definition newMustLogInError :: error where
  "newMustLogInError = MustLogInError ''You must be logged in.''"

section \<open>The context helpers\<close>

text \<open>
  \<^verbatim>\<open>getScopeContextHelpers(scopes)\<close> and \<^verbatim>\<open>getEventContextHelpers(events)\<close> return
  closures over their argument; a closure is the partial application of the functions
  below.  \<^verbatim>\<open>xs.reduce(f, false)\<close> is \<^term>\<open>foldl f False xs\<close>.  A \<^verbatim>\<open>require\<close>
  helper returns nothing (\<open>Inr ()\<close>) or throws (\<open>Inl\<close>).  The event helpers apply
  \<^verbatim>\<open>in\<close> to \<^verbatim>\<open>events\<close>, which throws a \<^verbatim>\<open>TypeError\<close> unless \<^verbatim>\<open>events\<close> is an
  object, so they return a boolean (\<open>Inr\<close>) or throw (\<open>Inl\<close>); an exception thrown by a
  helper passes through its caller.  In \<open>hasEventScope\<close> the read \<^verbatim>\<open>events[event]\<close> is
  reached only after \<^verbatim>\<open>in\<close> has returned, that is, on an object.
\<close>

definition hasScope :: "string list \<Rightarrow> jsval \<Rightarrow> bool" where
  "hasScope scopeList scope =
     foldl (\<lambda>accum s. accum \<or> s) False (map (\<lambda>s. includes_js scopeList s) (toArray scope))"

definition requireScope :: "string list \<Rightarrow> jsval \<Rightarrow> error + unit" where
  "requireScope scopeList scope =
     (if \<not> hasScope scopeList scope then Inl (newMissingScopeError scope Undefined)
      else Inr ())"

definition hasEvent :: "objval \<Rightarrow> string \<Rightarrow> error + bool" where
  "hasEvent eventMap event =
     (case eventMap of Object obj \<Rightarrow> Inr (hasProperty obj event) | _ \<Rightarrow> Inl TypeError)"

definition requireEvent :: "objval \<Rightarrow> string \<Rightarrow> error + unit" where
  "requireEvent eventMap event =
     (case hasEvent eventMap event of
        Inl err \<Rightarrow> Inl err
      | Inr present \<Rightarrow>
          if \<not> present then Inl (newMissingScopeError Null (Str ''any'')) else Inr ())"

definition hasEventScope :: "objval \<Rightarrow> string \<Rightarrow> jsval \<Rightarrow> error + bool" where
  "hasEventScope eventMap event permission =
     (case hasEvent eventMap event of
        Inl err \<Rightarrow> Inl err
      | Inr present \<Rightarrow>
          if \<not> present then Inr False
          else (case eventMap of
                  Object obj \<Rightarrow>
                    (let permissionArray = toArray permission
                     in Inr (foldl (\<lambda>accum p. p \<or> accum) False
                          (map (\<lambda>p. strictEquals (getProperty obj event) p) permissionArray)))
                | _ \<Rightarrow> Inl TypeError))"

definition requireEventScope :: "objval \<Rightarrow> string \<Rightarrow> jsval \<Rightarrow> error + unit" where
  "requireEventScope eventMap event permission =
     (case hasEventScope eventMap event permission of
        Inl err \<Rightarrow> Inl err
      | Inr granted \<Rightarrow>
          if \<not> granted then Inl (newMissingScopeError Null permission) else Inr ())"

section \<open>The context builder\<close>

text \<open>
  The three data fields of the \<^verbatim>\<open>auth\<close> object.  The helper closures spread into the
  returned object are the functions of this theory applied to these fields.
\<close>

record auth =
  isLoggedIn :: bool
  scopes :: "string list"
  events :: objval

text \<open>
  The \<^verbatim>\<open>user\<close> object.  Reading a property that \<^verbatim>\<open>{}\<close> lacks gives
  \<^verbatim>\<open>undefined\<close>, as reading one that a token without that claim left
  \<^verbatim>\<open>undefined\<close> does.
\<close>

record user =
  userId :: jsval
  username :: jsval
  email :: jsval
  corporateEmail :: jsval
  phoneNumber :: jsval
  pronoun :: jsval

text \<open>
  The claims that the builder reads from a verified token: \<^verbatim>\<open>sub\<close>, \<^verbatim>\<open>email\<close>,
  \<^verbatim>\<open>scope\<close> and the five \<^verbatim>\<open>https://codeday.xyz/\<close> claims.  A claim that the
  token lacks is \<^verbatim>\<open>undefined\<close>.
\<close>

record payload =
  claim_sub :: jsval
  claim_email :: jsval
  claim_scope :: jsval
  claim_username :: jsval
  claim_corporateEmail :: jsval
  claim_phoneNumber :: jsval
  claim_pronoun :: jsval
  claim_events :: objval

record "context" =
  auth :: auth
  user :: user

text \<open>
  What the builder can throw: the rejection of \<^verbatim>\<open>tokenCache.verifyAsync\<close>, as it
  is, or an error of its own.
\<close>

datatype 'e failure = Rejected 'e | Thrown error

text \<open>
  The array literal \<^verbatim>\<open>[]\<close>: no entries, and the property names that the engine gives
  every array (\<^verbatim>\<open>length\<close> and those of \<^verbatim>\<open>Array.prototype\<close> and
  \<^verbatim>\<open>Object.prototype\<close>), a parameter of the model.
\<close>

definition emptyArray :: "string list \<Rightarrow> jsobject" where
  "emptyArray arrayBuiltins = \<lparr>entries = Map.empty, builtins = arrayBuiltins\<rparr>"

text \<open>The object literal \<^verbatim>\<open>{}\<close> that \<^verbatim>\<open>user\<close> starts as.\<close>

definition emptyUser :: user where
  "emptyUser = \<lparr>userId = Undefined, username = Undefined, email = Undefined,
     corporateEmail = Undefined, phoneNumber = Undefined, pronoun = Undefined\<rparr>"

text \<open>\<^verbatim>\<open>(authorization || '').split(/\s+/, 2)\<close>: at most the first two fields.\<close>

definition parseAuthorization :: "string option \<Rightarrow> string list" where
  "parseAuthorization authorization =
     take 2 (split_ws (case authorization of None \<Rightarrow> [] | Some a \<Rightarrow> a))"

text \<open>
  The function that the module returns, applied to a request whose
  \<^verbatim>\<open>headers.authorization\<close> is \<open>authorization\<close> (\<open>None\<close> when the header is
  absent).  \<^verbatim>\<open>tokenCache.verifyAsync\<close> is the parameter \<open>verifyAsync\<close>: it resolves
  (\<open>Inr\<close>) or rejects (\<open>Inl\<close>), and it may change the state of the cache and of the
  key client, which is threaded through as \<open>st\<close>.

  The destructuring \<^verbatim>\<open>[authType, token]\<close> leaves \<^verbatim>\<open>token\<close> undefined when there is
  one field only; \<^verbatim>\<open>undefined\<close> and the empty string are both falsy.  With no field at
  all \<^verbatim>\<open>authType\<close> would be undefined and \<^verbatim>\<open>authType.toLowerCase()\<close> a
  \<^verbatim>\<open>TypeError\<close>.  \<^verbatim>\<open>scope.split\<close> is a \<^verbatim>\<open>TypeError\<close> unless the scope claim is
  a string.
\<close>

definition buildContext ::
  "string list \<Rightarrow> (string \<Rightarrow> 's \<Rightarrow> ('e + payload) \<times> 's) \<Rightarrow> string option \<Rightarrow> 's
     \<Rightarrow> ('e failure + context) \<times> 's" where
  "buildContext arrayBuiltins verifyAsync authorization st =
     (let user0 = emptyUser;
          auth0 = \<lparr>isLoggedIn = False, scopes = [],
                    events = Object (emptyArray arrayBuiltins)\<rparr>
      in case parseAuthorization authorization of
           [] \<Rightarrow> (Inl (Thrown TypeError), st)
         | [authType] \<Rightarrow> (Inr \<lparr>auth = auth0, user = user0\<rparr>, st)
         | authType # token # _ \<Rightarrow>
             if toLowerCase authType = ''bearer'' \<and> token \<noteq> [] then
               (case verifyAsync token st of
                  (Inl e, st') \<Rightarrow> (Inl (Rejected e), st')
                | (Inr p, st') \<Rightarrow>
                    (case claim_scope p of
                       Str scope \<Rightarrow>
                         (Inr \<lparr>auth = auth0\<lparr>isLoggedIn := True, scopes := split_ws scope,
                                              events := claim_events p\<rparr>,
                               user = \<lparr>userId = claim_sub p, username = claim_username p,
                                       email = claim_email p,
                                       corporateEmail = claim_corporateEmail p,
                                       phoneNumber = claim_phoneNumber p,
                                       pronoun = claim_pronoun p\<rparr>\<rparr>, st')
                     | _ \<Rightarrow> (Inl (Thrown TypeError), st')))
             else (Inr \<lparr>auth = auth0, user = user0\<rparr>, st))"

text \<open>
  The helpers that the builder adds, closures over \<^verbatim>\<open>auth\<close>.  \<^verbatim>\<open>a || b\<close> evaluates
  \<open>b\<close> only when \<open>a\<close> is false.
\<close>

definition hasScopeOrEvent :: "auth \<Rightarrow> jsval \<Rightarrow> string \<Rightarrow> error + bool" where
  "hasScopeOrEvent a scope event =
     (if hasScope (scopes a) scope then Inr True else hasEvent (events a) event)"

definition requireScopeOrEvent :: "auth \<Rightarrow> jsval \<Rightarrow> string \<Rightarrow> error + unit" where
  "requireScopeOrEvent a scope event =
     (case hasScopeOrEvent a scope event of
        Inl err \<Rightarrow> Inl err
      | Inr granted \<Rightarrow>
          if \<not> granted then Inl (newMissingScopeError scope (Str ''any'')) else Inr ())"

definition hasScopeOrEventScope :: "auth \<Rightarrow> jsval \<Rightarrow> string \<Rightarrow> jsval \<Rightarrow> error + bool" where
  "hasScopeOrEventScope a scope event eventScope =
     (if hasScope (scopes a) scope then Inr True
      else hasEventScope (events a) event eventScope)"

definition requireScopeOrEventScope :: "auth \<Rightarrow> jsval \<Rightarrow> string \<Rightarrow> jsval \<Rightarrow> error + unit" where
  "requireScopeOrEventScope a scope event eventScope =
     (case hasScopeOrEventScope a scope event eventScope of
        Inl err \<Rightarrow> Inl err
      | Inr granted \<Rightarrow>
          if \<not> granted then Inl (newMissingScopeError scope eventScope) else Inr ())"

definition requireLoggedIn :: "auth \<Rightarrow> error + unit" where
  "requireLoggedIn a = (if \<not> isLoggedIn a then Inl newMustLogInError else Inr ())"

section \<open>Sample data\<close>

text \<open>
  A principal with the global scope \<^verbatim>\<open>admin\<close> and the permission \<^verbatim>\<open>organizer\<close> for the
  event \<^verbatim>\<open>evt1\<close>; a token payload; a verification that resolves for the tokens
  \<^verbatim>\<open>good\<close>, \<^verbatim>\<open>bare\<close> (empty scope claim) and \<^verbatim>\<open>plain\<close> (no events claim),
  rejects every other token, and records each call in its state; and the principal that
  the builder makes of the token \<^verbatim>\<open>plain\<close>.
\<close>

definition sampleEvents :: jsobject where
  "sampleEvents = \<lparr>entries = [''evt1'' \<mapsto> Str ''organizer''],
     builtins = [''constructor'', ''toString'', ''valueOf'']\<rparr>"

definition samplePayload :: "string \<Rightarrow> payload" where
  "samplePayload scope = \<lparr>claim_sub = Str ''user1'', claim_email = Str ''a@example.org'',
     claim_scope = Str scope, claim_username = Str ''alice'', claim_corporateEmail = Undefined,
     claim_phoneNumber = Undefined, claim_pronoun = Undefined,
     claim_events = Object sampleEvents\<rparr>"

definition sampleVerify :: "string \<Rightarrow> string list \<Rightarrow> (string + payload) \<times> string list" where
  "sampleVerify token calls =
     (if token = ''good'' then Inr (samplePayload ''admin viewer'')
      else if token = ''bare'' then Inr (samplePayload [])
      else if token = ''plain''
        then Inr ((samplePayload ''admin'')\<lparr>claim_events := UndefinedValue\<rparr>)
      else Inl ''jwt expired'', calls @ [token])"

definition sampleAuth :: auth where
  "sampleAuth = \<lparr>isLoggedIn = True, scopes = [''admin''], events = Object sampleEvents\<rparr>"

definition plainAuth :: auth where
  "plainAuth = \<lparr>isLoggedIn = True, scopes = [''admin''], events = UndefinedValue\<rparr>"

section \<open>Facts about the helpers\<close>

lemma foldl_or_left: "foldl (\<lambda>accum s. accum \<or> s) b bs = (b \<or> True \<in> set bs)"
  by (induction bs arbitrary: b) auto

lemma foldl_or_right: "foldl (\<lambda>accum p. p \<or> accum) b bs = (b \<or> True \<in> set bs)"
  by (induction bs arbitrary: b) auto

lemma split_ws_nonempty: "split_ws s \<noteq> []"
  by (subst split_ws.simps) simp

lemma split_ws_Nil: "split_ws [] = [[]]"
  by (subst split_ws.simps) simp

lemma parseAuthorization_nonempty: "parseAuthorization h \<noteq> []"
  by (simp add: parseAuthorization_def split_ws_nonempty)

lemma join_snoc_sep: "join sep (x # ys) @ sep @ r = concat (map (\<lambda>y. y @ sep) (x # ys)) @ r"
  by (induction ys arbitrary: x) simp_all

lemma makeRequirementMessage_many:
  "makeRequirementMessage (Arr (x # ys @ [z])) =
     Some (concat (map (\<lambda>y. y @ '', '') (x # ys)) @ ''or '' @ z)"
proof -
  have n: "(x # ys @ [z]) ! (length (x # ys @ [z]) - 1) = z"
    by (simp add: nth_append)
  have t: "take (length (x # ys @ [z]) - 1) (x # ys @ [z]) = x # ys"
    by simp
  have "makeRequirementMessage (Arr (x # ys @ [z])) = Some (join '', '' (x # ys) @ '', or '' @ z)"
    unfolding makeRequirementMessage_def using n t by simp
  also have "join '', '' (x # ys) @ '', or '' @ z = join '', '' (x # ys) @ '', '' @ (''or '' @ z)"
    by simp
  also have "\<dots> = concat (map (\<lambda>y. y @ '', '') (x # ys)) @ ''or '' @ z"
    by (rule join_snoc_sep)
  finally show ?thesis .
qed

lemma missingScopeMessage_clauses:
  "missingScopeMessage g e =
     ''You don't have permission for that.'' @
       (case (requirementClause (makeRequirementMessage g) '' global scope'',
              requirementClause (makeRequirementMessage e) '' event scope'') of
          (None, None) \<Rightarrow> []
        | (Some a, None) \<Rightarrow> ''(Requires '' @ a @ '')''
        | (None, Some b) \<Rightarrow> ''(Requires '' @ b @ '')''
        | (Some a, Some b) \<Rightarrow> ''(Requires '' @ a @ '', or '' @ b @ '')'')"
  by (auto simp: missingScopeMessage_def requirementClause_def Let_def split: option.splits)

lemma strictEquals_Builtin: "strictEquals Builtin b = False"
  by (simp add: strictEquals_def)

lemma strictEquals_Str: "strictEquals v (Str p) = (v = Val (Str p))"
  by (auto simp: strictEquals_def split: propval.splits jsval.splits)

lemma getProperty_Str: "(getProperty obj key = Val (Str p)) = (entries obj key = Some (Str p))"
  by (auto simp: getProperty_def split: option.splits)

lemma hasEvent_Object: "hasEvent (Object obj) e = Inr (hasProperty obj e)"
  by (simp add: hasEvent_def)

lemma hasEvent_not_object:
  assumes "eventMap \<in> {UndefinedValue, NullValue, PrimitiveValue}"
  shows "hasEvent eventMap e = Inl TypeError"
  using assms by (auto simp: hasEvent_def)


lemma hasEventScope_Object:
  "hasEventScope (Object obj) e perm =
     Inr (hasProperty obj e \<and> True \<in> set (map (strictEquals (getProperty obj e)) (toArray perm)))"
  by (simp add: hasEventScope_def hasEvent_Object foldl_or_right)

lemma hasEventScope_not_own:
  assumes "entries obj e = None"
  shows "hasEventScope (Object obj) e perm = Inr False"
proof (cases "e \<in> set (builtins obj)")
  case True
  with assms have "getProperty obj e = Builtin"
    by (simp add: getProperty_def)
  then show ?thesis
    by (simp add: hasEventScope_Object strictEquals_Builtin)
next
  case False
  with assms show ?thesis
    by (simp add: hasEventScope_Object hasProperty_def)
qed

lemma hasEventScope_Str:
  "hasEventScope (Object obj) e (Str p) = Inr (entries obj e = Some (Str p))"
proof (cases "entries obj e")
  case None
  then show ?thesis by (simp add: hasEventScope_not_own)
next
  case (Some v)
  then have "hasProperty obj e"
    by (simp add: hasProperty_def)
  then show ?thesis
    by (simp add: hasEventScope_Object strictEquals_Str getProperty_Str)
qed


lemma buildContext_bearer:
  assumes "parseAuthorization authorization = [authType, token]"
    and "toLowerCase authType = ''bearer''" and "token \<noteq> []"
  shows "buildContext arrayBuiltins verifyAsync authorization st =
     (case verifyAsync token st of
        (Inl e, st') \<Rightarrow> (Inl (Rejected e), st')
      | (Inr p, st') \<Rightarrow>
          (case claim_scope p of
             Str scope \<Rightarrow>
               (Inr \<lparr>auth = \<lparr>isLoggedIn = True, scopes = split_ws scope, events = claim_events p\<rparr>,
                     user = \<lparr>userId = claim_sub p, username = claim_username p,
                             email = claim_email p, corporateEmail = claim_corporateEmail p,
                             phoneNumber = claim_phoneNumber p, pronoun = claim_pronoun p\<rparr>\<rparr>, st')
           | _ \<Rightarrow> (Inl (Thrown TypeError), st')))"
  using assms
  by (simp add: buildContext_def split: prod.splits sum.splits jsval.splits)

lemma buildContext_cases:
  "buildContext arrayBuiltins verifyAsync authorization st =
     (Inr \<lparr>auth = \<lparr>isLoggedIn = False, scopes = [],
                    events = Object \<lparr>entries = Map.empty, builtins = arrayBuiltins\<rparr>\<rparr>,
           user = emptyUser\<rparr>, st)
   \<or> (\<exists>authType token. parseAuthorization authorization = [authType, token]
         \<and> toLowerCase authType = ''bearer'' \<and> token \<noteq> [])"
proof (cases "parseAuthorization authorization")
  case Nil
  then show ?thesis by (simp add: parseAuthorization_nonempty)
next
  case (Cons authType rest)
  have len: "length (parseAuthorization authorization) \<le> 2"
    by (simp add: parseAuthorization_def)
  show ?thesis
  proof (cases rest)
    case Nil
    with Cons show ?thesis
      by (simp add: buildContext_def emptyArray_def)
  next
    case r: (Cons token more)
    with Cons len have "more = []" by simp
    with Cons r have p: "parseAuthorization authorization = [authType, token]"
      by simp
    show ?thesis
    proof (cases "toLowerCase authType = ''bearer'' \<and> token \<noteq> []")
      case True
      with p show ?thesis by simp
    next
      case False
      then have "buildContext arrayBuiltins verifyAsync authorization st =
          (Inr \<lparr>auth = \<lparr>isLoggedIn = False, scopes = [],
                        events = Object (emptyArray arrayBuiltins)\<rparr>,
                user = emptyUser\<rparr>, st)"
        unfolding buildContext_def Let_def p by (simp only: list.case if_False)
      then show ?thesis
        by (simp add: emptyArray_def)
    qed
  qed
qed


section \<open>The permission evaluator\<close>

text \<open>
  C1: \<open>hasScope\<close> on a single scope string is membership of that string in the scopes of
  the principal, and on a list of scope strings it holds exactly when at least one scope
  of the list is among the scopes of the principal.
\<close>

theorem hasScope_iff_member:
  "hasScope (scopes P) (Str s) = (s \<in> set (scopes P))
   \<and> hasScope (scopes P) (Arr ss) = (set ss \<inter> set (scopes P) \<noteq> {})"
  by (auto simp: hasScope_def foldl_or_left includes_js_def)

text \<open>
  C2: \<open>requireScope\<close> throws exactly when \<open>hasScope\<close> is false, and what it throws is
  the \<open>MissingScopeError\<close> constructed with the required scope or scopes as its global
  requirement and no event requirement; when \<open>hasScope\<close> is true it returns normally.  Its
  only result is this outcome: the scopes of the principal are read, never written.  The
  error holds the requirement in its message: a non-empty scope string, or the entries of a
  list of two or more scopes, followed by \<^verbatim>\<open>global scope\<close>.
\<close>

theorem requireScope_throws_iff:
  "(requireScope (scopes P) s = Inl (newMissingScopeError s Undefined)) = (\<not> hasScope (scopes P) s)
   \<and> (requireScope (scopes P) s = Inr ()) = hasScope (scopes P) s
   \<and> newMissingScopeError (Str x) Undefined =
        MissingScopeError (''You don't have permission for that.''
          @ (if x = [] then [] else ''(Requires '' @ x @ '' global scope)''))
   \<and> newMissingScopeError (Arr (y # ys @ [z])) Undefined =
        MissingScopeError (''You don't have permission for that.(Requires ''
          @ concat (map (\<lambda>y. y @ '', '') (y # ys)) @ ''or '' @ z @ '' global scope)'')"
proof (intro conjI)
  show "(requireScope (scopes P) s = Inl (newMissingScopeError s Undefined)) = (\<not> hasScope (scopes P) s)"
    by (simp add: requireScope_def)
  show "(requireScope (scopes P) s = Inr ()) = hasScope (scopes P) s"
    by (simp add: requireScope_def)
  have u: "makeRequirementMessage Undefined = None"
    by (simp add: makeRequirementMessage_def)
  show "newMissingScopeError (Str x) Undefined =
        MissingScopeError (''You don't have permission for that.''
          @ (if x = [] then [] else ''(Requires '' @ x @ '' global scope)''))"
    by (simp add: newMissingScopeError_def missingScopeMessage_clauses u
        makeRequirementMessage_def requirementClause_def)
  show "newMissingScopeError (Arr (y # ys @ [z])) Undefined =
        MissingScopeError (''You don't have permission for that.(Requires ''
          @ concat (map (\<lambda>y. y @ '', '') (y # ys)) @ ''or '' @ z @ '' global scope)'')"
    by (simp add: newMissingScopeError_def missingScopeMessage_clauses u
        makeRequirementMessage_many requirementClause_def)
qed




text \<open>
  C6: \<open>hasScopeOrEvent\<close> is \<^verbatim>\<open>hasScope(scope) || hasEvent(event)\<close>: true when
  \<open>hasScope\<close> is true, and otherwise what \<open>hasEvent\<close> gives.  Whenever \<open>hasEvent\<close>
  returns a boolean, it returns the disjunction of the two booleans.
\<close>

theorem hasScopeOrEvent_is_or:
  "hasScopeOrEvent P s e = (if hasScope (scopes P) s then Inr True else hasEvent (events P) e)
   \<and> (hasEvent (events P) e = Inr b \<longrightarrow>
        hasScopeOrEvent P s e = Inr (hasScope (scopes P) s \<or> b))"
  by (simp add: hasScopeOrEvent_def)

theorem hasScopeOrEvent_is_or_witness:
  "hasScope (scopes sampleAuth) (Str ''admin'') \<and> hasEvent (events sampleAuth) ''evt1'' = Inr True
     \<and> hasScopeOrEvent sampleAuth (Str ''admin'') ''evt1'' = Inr True
   \<and> hasEvent (events sampleAuth) ''evt2'' = Inr False
     \<and> hasScopeOrEvent sampleAuth (Str ''admin'') ''evt2'' = Inr True
   \<and> \<not> hasScope (scopes sampleAuth) (Str ''nope'')
     \<and> hasScopeOrEvent sampleAuth (Str ''nope'') ''evt1'' = Inr True
   \<and> hasScopeOrEvent sampleAuth (Str ''nope'') ''evt2'' = Inr False"
proof -
  have a: "hasScope (scopes sampleAuth) (Str ''admin'')"
    by (simp add: sampleAuth_def hasScope_def includes_js_def)
  have n: "\<not> hasScope (scopes sampleAuth) (Str ''nope'')"
    by (simp add: sampleAuth_def hasScope_def includes_js_def)
  have e1: "hasEvent (events sampleAuth) ''evt1'' = Inr True"
    by (simp add: sampleAuth_def sampleEvents_def hasEvent_def hasProperty_def)
  have e2: "hasEvent (events sampleAuth) ''evt2'' = Inr False"
    by (simp add: sampleAuth_def sampleEvents_def hasEvent_def hasProperty_def)
  show ?thesis
    using a n e1 e2
      hasScopeOrEvent_is_or [where P = sampleAuth and s = "Str ''admin''" and e = "''evt1''"
        and b = True]
      hasScopeOrEvent_is_or [where P = sampleAuth and s = "Str ''admin''" and e = "''evt2''"
        and b = False]
      hasScopeOrEvent_is_or [where P = sampleAuth and s = "Str ''nope''" and e = "''evt1''"
        and b = True]
      hasScopeOrEvent_is_or [where P = sampleAuth and s = "Str ''nope''" and e = "''evt2''"
        and b = False]
    by simp
qed




text \<open>
  C8: \<open>requireLoggedIn\<close> throws exactly when the principal is not logged in, and what it
  throws is the \<open>MustLogInError\<close> whose only content is the fixed message.
\<close>

theorem requireLoggedIn_throws_iff:
  "(requireLoggedIn P = Inl (MustLogInError ''You must be logged in.'')) = (\<not> isLoggedIn P)
   \<and> (requireLoggedIn P = Inr ()) = isLoggedIn P"
  by (simp add: requireLoggedIn_def newMustLogInError_def)

section \<open>The message of a missing scope\<close>

text \<open>
  C7: a requirement list of two or more entries is rendered with each entry but the last
  followed by a comma and a space, then \<^verbatim>\<open>or\<close> and the last entry.  A requirement that is
  undefined, null or the empty list contributes no clause: the message names the other
  requirement only, or no requirement when both are absent.  The global requirement
  \<^verbatim>\<open>["a","b","c"]\<close> with a null event requirement gives the message ending in
  \<^verbatim>\<open>(Requires a, b, or c global scope)\<close>.
\<close>

theorem missingScope_message_rendering:
  "makeRequirementMessage (Arr (x # ys @ [z])) =
     Some (concat (map (\<lambda>y. y @ '', '') (x # ys)) @ ''or '' @ z)
   \<and> (r \<in> {Undefined, Null, Arr []} \<and> r' \<in> {Undefined, Null, Arr []}
        \<and> makeRequirementMessage g = Some m \<and> m \<noteq> [] \<longrightarrow>
          missingScopeMessage g r = ''You don't have permission for that.(Requires '' @ m @ '' global scope)''
        \<and> missingScopeMessage r g = ''You don't have permission for that.(Requires '' @ m @ '' event scope)''
        \<and> missingScopeMessage r r' = ''You don't have permission for that.'')
   \<and> newMissingScopeError (Arr [''a'', ''b'', ''c'']) Null =
        MissingScopeError ''You don't have permission for that.(Requires a, b, or c global scope)''"
proof (intro conjI impI)
  show "makeRequirementMessage (Arr (x # ys @ [z])) =
     Some (concat (map (\<lambda>y. y @ '', '') (x # ys)) @ ''or '' @ z)"
    by (rule makeRequirementMessage_many)
next
  assume a: "r \<in> {Undefined, Null, Arr []} \<and> r' \<in> {Undefined, Null, Arr []}
        \<and> makeRequirementMessage g = Some m \<and> m \<noteq> []"
  then have r: "makeRequirementMessage r = None" and r': "makeRequirementMessage r' = None"
    by (auto simp: makeRequirementMessage_def)
  from a have g: "requirementClause (makeRequirementMessage g) suffix = Some (m @ suffix)" for suffix
    by (simp add: requirementClause_def)
  have n: "requirementClause None suffix = None" for suffix
    by (simp add: requirementClause_def)
  show "missingScopeMessage g r = ''You don't have permission for that.(Requires '' @ m @ '' global scope)''"
    by (simp add: missingScopeMessage_clauses r g n)
  show "missingScopeMessage r g = ''You don't have permission for that.(Requires '' @ m @ '' event scope)''"
    by (simp add: missingScopeMessage_clauses r g n)
  show "missingScopeMessage r r' = ''You don't have permission for that.''"
    by (simp add: missingScopeMessage_clauses r r' n)
next
  show "newMissingScopeError (Arr [''a'', ''b'', ''c'']) Null =
        MissingScopeError ''You don't have permission for that.(Requires a, b, or c global scope)''"
    by (simp add: newMissingScopeError_def missingScopeMessage_clauses makeRequirementMessage_def
        requirementClause_def)
qed

theorem missingScope_message_rendering_witness:
  "Null \<in> {Undefined, Null, Arr []} \<and> Arr [] \<in> {Undefined, Null, Arr []}
   \<and> makeRequirementMessage (Arr [''a'', ''b'']) = Some ''a, or b'' \<and> ''a, or b'' \<noteq> []
   \<and> missingScopeMessage (Arr [''a'', ''b'']) Null =
        ''You don't have permission for that.(Requires a, or b global scope)''
   \<and> missingScopeMessage Null (Arr [''a'', ''b'']) =
        ''You don't have permission for that.(Requires a, or b event scope)''
   \<and> missingScopeMessage Null (Arr []) = ''You don't have permission for that.''"
proof -
  have m: "makeRequirementMessage (Arr [''a'', ''b'']) = Some ''a, or b''"
    by (simp add: makeRequirementMessage_def)
  show ?thesis
    using m missingScope_message_rendering [where r = Null and r' = "Arr []"
        and g = "Arr [''a'', ''b'']" and m = "''a, or b''"]
    by simp
qed

section \<open>The claims extractor\<close>

text \<open>
  C4: when the Authorization header is absent, or its first field is not \<^verbatim>\<open>bearer\<close> up to
  letter case, or its second field is missing or empty, the builder returns the anonymous
  principal (not logged in, no scopes, no events, no user fields), whatever the verification
  would do, and leaves the state of the verification as it was.
\<close>

theorem anonymous_without_bearer_token:
  assumes "authorization = None
     \<or> toLowerCase (hd (parseAuthorization authorization)) \<noteq> ''bearer''
     \<or> length (parseAuthorization authorization) < 2
     \<or> parseAuthorization authorization ! 1 = []"
  shows "buildContext arrayBuiltins verifyAsync authorization st =
     (Inr \<lparr>auth = \<lparr>isLoggedIn = False, scopes = [],
                    events = Object \<lparr>entries = Map.empty, builtins = arrayBuiltins\<rparr>\<rparr>,
           user = emptyUser\<rparr>, st)"
proof -
  have none: "parseAuthorization None = [[]]"
    by (simp add: parseAuthorization_def split_ws_Nil)
  show ?thesis
  proof (cases "parseAuthorization authorization")
    case Nil
    then show ?thesis by (simp add: parseAuthorization_nonempty)
  next
    case (Cons authType rest)
    show ?thesis
    proof (cases rest)
      case Nil
      with Cons show ?thesis
        by (simp add: buildContext_def emptyArray_def)
    next
      case (Cons token more)
      with \<open>parseAuthorization authorization = authType # rest\<close> assms none
      have "toLowerCase authType \<noteq> ''bearer'' \<or> token = []"
        by auto
      with Cons \<open>parseAuthorization authorization = authType # rest\<close> show ?thesis
        by (auto simp: buildContext_def emptyArray_def)
    qed
  qed
qed

theorem anonymous_without_bearer_token_witness:
  "buildContext [''length''] sampleVerify None [] =
     (Inr \<lparr>auth = \<lparr>isLoggedIn = False, scopes = [],
                    events = Object \<lparr>entries = Map.empty, builtins = [''length'']\<rparr>\<rparr>,
           user = emptyUser\<rparr>, [])
   \<and> toLowerCase (hd (parseAuthorization (Some ''Basic good''))) \<noteq> ''bearer''
   \<and> buildContext [''length''] sampleVerify (Some ''Basic good'') [] =
     (Inr \<lparr>auth = \<lparr>isLoggedIn = False, scopes = [],
                    events = Object \<lparr>entries = Map.empty, builtins = [''length'']\<rparr>\<rparr>,
           user = emptyUser\<rparr>, [])
   \<and> length (parseAuthorization (Some ''Bearer'')) < 2
   \<and> buildContext [''length''] sampleVerify (Some ''Bearer'') [] =
     (Inr \<lparr>auth = \<lparr>isLoggedIn = False, scopes = [],
                    events = Object \<lparr>entries = Map.empty, builtins = [''length'']\<rparr>\<rparr>,
           user = emptyUser\<rparr>, [])
   \<and> parseAuthorization (Some ''Bearer '') ! 1 = []
   \<and> buildContext [''length''] sampleVerify (Some ''Bearer '') [] =
     (Inr \<lparr>auth = \<lparr>isLoggedIn = False, scopes = [],
                    events = Object \<lparr>entries = Map.empty, builtins = [''length'']\<rparr>\<rparr>,
           user = emptyUser\<rparr>, [])"
proof -
  have a: "toLowerCase (hd (parseAuthorization (Some ''Basic good''))) \<noteq> ''bearer''"
    by code_simp
  have b: "length (parseAuthorization (Some ''Bearer'')) < 2"
    by code_simp
  have c: "parseAuthorization (Some ''Bearer '') ! 1 = []"
    by code_simp
  show ?thesis
    using a b c
      anonymous_without_bearer_token [of None "[''length'']" sampleVerify "[]"]
      anonymous_without_bearer_token [of "Some ''Basic good''" "[''length'']" sampleVerify "[]"]
      anonymous_without_bearer_token [of "Some ''Bearer''" "[''length'']" sampleVerify "[]"]
      anonymous_without_bearer_token [of "Some ''Bearer ''" "[''length'']" sampleVerify "[]"]
    by simp
qed

text \<open>
  C5: when the header carries a bearer token that the verification rejects, the builder
  fails with that very rejection.  Whenever the builder returns a context, the context is
  either the anonymous one, with the verification not run, or the one whose every field
  comes from the claims of a verified token.
\<close>

theorem verification_failure_propagates:
  "(parseAuthorization authorization = [authType, token] \<and> toLowerCase authType = ''bearer''
      \<and> token \<noteq> [] \<and> verifyAsync token st = (Inl e, st')
      \<longrightarrow> buildContext arrayBuiltins verifyAsync authorization st = (Inl (Rejected e), st'))
   \<and> (buildContext arrayBuiltins verifyAsync authorization' st = (Inr ctx, st'')
      \<longrightarrow> (ctx = \<lparr>auth = \<lparr>isLoggedIn = False, scopes = [],
                             events = Object \<lparr>entries = Map.empty, builtins = arrayBuiltins\<rparr>\<rparr>,
                    user = emptyUser\<rparr> \<and> st'' = st)
        \<or> (\<exists>credential p scope. verifyAsync credential st = (Inr p, st'')
              \<and> claim_scope p = Str scope
              \<and> ctx = \<lparr>auth = \<lparr>isLoggedIn = True, scopes = split_ws scope,
                                 events = claim_events p\<rparr>,
                        user = \<lparr>userId = claim_sub p, username = claim_username p,
                                email = claim_email p, corporateEmail = claim_corporateEmail p,
                                phoneNumber = claim_phoneNumber p,
                                pronoun = claim_pronoun p\<rparr>\<rparr>))"
proof (intro conjI impI)
  assume "parseAuthorization authorization = [authType, token] \<and> toLowerCase authType = ''bearer''
      \<and> token \<noteq> [] \<and> verifyAsync token st = (Inl e, st')"
  then show "buildContext arrayBuiltins verifyAsync authorization st = (Inl (Rejected e), st')"
    by (simp add: buildContext_bearer)
next
  assume r: "buildContext arrayBuiltins verifyAsync authorization' st = (Inr ctx, st'')"
  let ?anon = "\<lparr>auth = \<lparr>isLoggedIn = False, scopes = [],
                             events = Object \<lparr>entries = Map.empty, builtins = arrayBuiltins\<rparr>\<rparr>,
                    user = emptyUser\<rparr>"
  from buildContext_cases [of arrayBuiltins verifyAsync authorization' st]
  consider (anon) "buildContext arrayBuiltins verifyAsync authorization' st = (Inr ?anon, st)"
    | (bearer) a t where "parseAuthorization authorization' = [a, t]"
        "toLowerCase a = ''bearer''" "t \<noteq> []"
    by blast
  then show "(ctx = ?anon \<and> st'' = st)
        \<or> (\<exists>credential p scope. verifyAsync credential st = (Inr p, st'')
              \<and> claim_scope p = Str scope
              \<and> ctx = \<lparr>auth = \<lparr>isLoggedIn = True, scopes = split_ws scope,
                                 events = claim_events p\<rparr>,
                        user = \<lparr>userId = claim_sub p, username = claim_username p,
                                email = claim_email p, corporateEmail = claim_corporateEmail p,
                                phoneNumber = claim_phoneNumber p,
                                pronoun = claim_pronoun p\<rparr>\<rparr>)"
  proof cases
    case anon
    with r show ?thesis by simp
  next
    case bearer
    from r buildContext_bearer [OF bearer, of arrayBuiltins verifyAsync st]
    have "\<exists>p scope. verifyAsync t st = (Inr p, st'') \<and> claim_scope p = Str scope
              \<and> ctx = \<lparr>auth = \<lparr>isLoggedIn = True, scopes = split_ws scope,
                                 events = claim_events p\<rparr>,
                        user = \<lparr>userId = claim_sub p, username = claim_username p,
                                email = claim_email p, corporateEmail = claim_corporateEmail p,
                                phoneNumber = claim_phoneNumber p,
                                pronoun = claim_pronoun p\<rparr>\<rparr>"
      by (auto split: prod.splits sum.splits jsval.splits)
    then show ?thesis by blast
  qed
qed

theorem verification_failure_propagates_witness:
  "parseAuthorization (Some ''Bearer stale'') = [''Bearer'', ''stale'']
   \<and> toLowerCase ''Bearer'' = ''bearer'' \<and> ''stale'' \<noteq> []
   \<and> sampleVerify ''stale'' [] = (Inl ''jwt expired'', [''stale''])
   \<and> buildContext [''length''] sampleVerify (Some ''Bearer stale'') [] =
        (Inl (Rejected ''jwt expired''), [''stale''])
   \<and> (\<exists>ctx. buildContext [''length''] sampleVerify (Some ''bearer good'') [] = (Inr ctx, [''good''])
        \<and> isLoggedIn (auth ctx) \<and> scopes (auth ctx) = [''admin'', ''viewer'']
        \<and> events (auth ctx) = Object sampleEvents \<and> userId (user ctx) = Str ''user1'')"
proof -
  have p: "parseAuthorization (Some ''Bearer stale'') = [''Bearer'', ''stale'']"
    by code_simp
  have l: "toLowerCase ''Bearer'' = ''bearer''"
    by code_simp
  have v: "sampleVerify ''stale'' [] = (Inl ''jwt expired'', [''stale''])"
    by (simp add: sampleVerify_def)
  have p': "parseAuthorization (Some ''bearer good'') = [''bearer'', ''good'']"
    by code_simp
  have l': "toLowerCase ''bearer'' = ''bearer''"
    by code_simp
  have s: "split_ws ''admin viewer'' = [''admin'', ''viewer'']"
    by code_simp
  have g: "buildContext [''length''] sampleVerify (Some ''bearer good'') [] =
     (Inr \<lparr>auth = \<lparr>isLoggedIn = True, scopes = [''admin'', ''viewer''],
                    events = Object sampleEvents\<rparr>,
           user = \<lparr>userId = Str ''user1'', username = Str ''alice'', email = Str ''a@example.org'',
                   corporateEmail = Undefined, phoneNumber = Undefined,
                   pronoun = Undefined\<rparr>\<rparr>, [''good''])"
    by (simp add: buildContext_def p' l' s sampleVerify_def samplePayload_def)
  show ?thesis
    using p l v g
      verification_failure_propagates [where authorization = "Some ''Bearer stale''"
        and authType = "''Bearer''" and token = "''stale''" and verifyAsync = sampleVerify
        and st = "[]" and e = "''jwt expired''" and st' = "[''stale'']"
        and arrayBuiltins = "[''length'']" and authorization' = "Some ''bearer good''"
        and st'' = "[''good'']"
        and ctx = "\<lparr>auth = \<lparr>isLoggedIn = True, scopes = [''admin'', ''viewer''],
                               events = Object sampleEvents\<rparr>,
           user = \<lparr>userId = Str ''user1'', username = Str ''alice'', email = Str ''a@example.org'',
                   corporateEmail = Undefined, phoneNumber = Undefined,
                   pronoun = Undefined\<rparr>\<rparr>"]
    by simp
qed

text \<open>
  C9: when the header carries a bearer token that verifies and whose scope claim is the
  empty string, the builder returns a logged-in principal whose scopes are the one-element
  list holding the empty string, so \<open>hasScope\<close> of the empty string is true for it.
\<close>

theorem empty_scope_claim_grants_empty_scope:
  assumes "parseAuthorization authorization = [authType, token]"
    and "toLowerCase authType = ''bearer''" and "token \<noteq> []"
    and "verifyAsync token st = (Inr p, st')" and "claim_scope p = Str []"
  shows "\<exists>ctx. buildContext arrayBuiltins verifyAsync authorization st = (Inr ctx, st')
     \<and> isLoggedIn (auth ctx) \<and> scopes (auth ctx) = [[]] \<and> scopes (auth ctx) \<noteq> []
     \<and> hasScope (scopes (auth ctx)) (Str [])"
  using assms
  by (simp add: buildContext_bearer [OF assms(1-3)] split_ws_Nil hasScope_def includes_js_def)

theorem empty_scope_claim_grants_empty_scope_witness:
  "parseAuthorization (Some ''Bearer bare'') = [''Bearer'', ''bare'']
   \<and> toLowerCase ''Bearer'' = ''bearer'' \<and> ''bare'' \<noteq> []
   \<and> sampleVerify ''bare'' [] = (Inr (samplePayload []), [''bare''])
   \<and> claim_scope (samplePayload []) = Str []
   \<and> (\<exists>ctx. buildContext [''length''] sampleVerify (Some ''Bearer bare'') [] = (Inr ctx, [''bare''])
        \<and> isLoggedIn (auth ctx) \<and> scopes (auth ctx) = [[]] \<and> scopes (auth ctx) \<noteq> []
        \<and> hasScope (scopes (auth ctx)) (Str []))"
proof -
  have p: "parseAuthorization (Some ''Bearer bare'') = [''Bearer'', ''bare'']"
    by code_simp
  have l: "toLowerCase ''Bearer'' = ''bearer''"
    by code_simp
  have n: "''bare'' \<noteq> []"
    by simp
  have v: "sampleVerify ''bare'' [] = (Inr (samplePayload []), [''bare''])"
    by (simp add: sampleVerify_def)
  have c: "claim_scope (samplePayload []) = Str []"
    by (simp add: samplePayload_def)
  show ?thesis
    using p l n v c
      empty_scope_claim_grants_empty_scope [where authorization = "Some ''Bearer bare''"
        and authType = "''Bearer''" and token = "''bare''" and verifyAsync = sampleVerify
        and st = "[]" and p = "samplePayload []" and st' = "[''bare'']"
        and arrayBuiltins = "[''length'']"]
    by simp
qed


section \<open>The scenario of the specification\<close>

lemma scenario:
  "hasScope (scopes sampleAuth) (Str ''admin'')
   \<and> hasScope (scopes sampleAuth) (Arr [''viewer'', ''admin''])
   \<and> requireEventScope (events sampleAuth) ''evt1'' (Str ''volunteer'') =
        Inl (MissingScopeError ''You don't have permission for that.(Requires volunteer event scope)'')
   \<and> hasScopeOrEventScope sampleAuth (Str ''nope'') ''evt1'' (Str ''organizer'') = Inr True"
  by (simp add: sampleAuth_def sampleEvents_def hasScope_def includes_js_def
      requireEventScope_def hasScopeOrEventScope_def hasEventScope_Str newMissingScopeError_def
      missingScopeMessage_clauses makeRequirementMessage_def requirementClause_def)

text \<open>
  \<open>hasEvent\<close> is the \<^verbatim>\<open>in\<close> operator, which also finds the names that every object
  inherits; the value found there is no permission string.
\<close>

lemma hasEvent_inherited_name:
  "hasEvent (events sampleAuth) ''toString'' = Inr True
   \<and> hasEventScope (events sampleAuth) ''toString'' perm = Inr False"
  by (simp add: sampleAuth_def sampleEvents_def hasEvent_def hasProperty_def
      hasEventScope_not_own)

text \<open>
  With undefined events the global scope still grants: the right operand of
  \<^verbatim>\<open>||\<close> is not evaluated.  Without the global scope the exception of \<open>hasEvent\<close>
  passes through.
\<close>

lemma hasScopeOrEvent_without_events:
  "hasScopeOrEvent plainAuth (Str ''admin'') ''evt1'' = Inr True
   \<and> hasScopeOrEvent plainAuth (Str ''nope'') ''evt1'' = Inl TypeError
   \<and> requireEvent (events plainAuth) ''evt1'' = Inl TypeError"
  by (simp add: plainAuth_def hasScopeOrEvent_def hasScope_def includes_js_def hasEvent_def
      requireEvent_def)

end
